theory Spec2Isabelle
  imports Complex_Main "HOL-Library.Word" "HOL-Library.Finite_Map"
begin

section \<open>WordPiece encoding (rcpp\_wordpiece.cpp)\<close>

text \<open>
  \<^verbatim>\<open>wordpiece_encode_as_subwords\<close> works on \<^verbatim>\<open>unsigned int\<close> positions, so positions
  are 32-bit words here and every \<^verbatim>\<open>+\<close> and \<^verbatim>\<open>-\<close> wraps as in the source.
  A \<^verbatim>\<open>std::string\<close> is a list of bytes.
\<close>

datatype wp_error = OutOfRange

text \<open>\<^verbatim>\<open>x.substr(pos, n)\<close>: throws \<^verbatim>\<open>std::out_of_range\<close> when \<^verbatim>\<open>pos > x.size()\<close>,
  otherwise the characters from \<^verbatim>\<open>pos\<close>, at most \<^verbatim>\<open>n\<close> of them.\<close>

definition substr :: "string \<Rightarrow> nat \<Rightarrow> nat \<Rightarrow> wp_error + string" where
  "substr x pos n = (if length x < pos then Inl OutOfRange else Inr (take n (drop pos x)))"

text \<open>The inner \<^verbatim>\<open>while(start < end)\<close> loop: the longest candidate first, \<^verbatim>\<open>end\<close>
  decreasing. It returns \<^verbatim>\<open>cur_substr\<close> (empty when nothing matched) and the final
  \<^verbatim>\<open>end\<close>.\<close>

function longest_match ::
  "string \<Rightarrow> string list \<Rightarrow> 32 word \<Rightarrow> 32 word \<Rightarrow> wp_error + (string \<times> 32 word)" where
  "longest_match x vocabulary start en =
     (if start < en then
        (case substr x (unat start) (unat (en - start + 1)) of
           Inl err \<Rightarrow> Inl err
         | Inr s \<Rightarrow>
             if (if 0 < start then ''##'' @ s else s) \<in> set vocabulary
             then Inr (if 0 < start then ''##'' @ s else s, en)
             else longest_match x vocabulary start (en - 1))
      else Inr ('''', en))"
  by pat_completeness auto
termination
proof (relation "measure (\<lambda>(x, vocabulary, start, en). unat en)")
  show "wf (measure (\<lambda>(x, vocabulary, start, en). unat en))"
    by simp
next
  fix x :: string and vocabulary :: "string list" and start en :: "32 word" and s :: string
  assume "start < en"
  then have "en \<noteq> 0"
    by (metis word_not_simps(1))
  then have "unat (en - 1) < unat en"
    by (simp add: unat_minus_one unat_gt_0)
  then show "((x, vocabulary, start, en - 1), (x, vocabulary, start, en))
      \<in> measure (\<lambda>(x, vocabulary, start, en). unat en)"
    by simp
qed

text \<open>The outer \<^verbatim>\<open>while(start < len)\<close> loop. After a match \<^verbatim>\<open>start = end + 1\<close> can
  wrap to 0 when \<^verbatim>\<open>end\<close> is the largest \<^verbatim>\<open>unsigned int\<close>, so the loop is not known to
  end on every input: not returning is the value \<open>None\<close>.\<close>

partial_function (option) encode_loop ::
  "string \<Rightarrow> string list \<Rightarrow> string \<Rightarrow> 32 word \<Rightarrow> 32 word \<Rightarrow> string list
    \<Rightarrow> (wp_error + string list) option" where
  "encode_loop x vocabulary unk_token len start sub_tokens =
     (if start < len then
        (case longest_match x vocabulary start len of
           Inl err \<Rightarrow> Some (Inl err)
         | Inr (cur_substr, en) \<Rightarrow>
             if cur_substr = '''' then Some (Inr (sub_tokens @ [unk_token]))
             else encode_loop x vocabulary unk_token len (en + 1) (sub_tokens @ [cur_substr]))
      else Some (Inr sub_tokens))"

text \<open>\<^verbatim>\<open>unsigned int len = x.length() - 1\<close>: the subtraction is done on \<^verbatim>\<open>size_t\<close> and
  truncated to 32 bits, which is the 32-bit word of the length minus one.\<close>

definition wordpiece_encode_as_subwords ::
  "string \<Rightarrow> string list \<Rightarrow> string \<Rightarrow> 32 word \<Rightarrow> (wp_error + string list) option" where
  "wordpiece_encode_as_subwords x vocabulary unk_token max_input_chars_per_word =
     (let len = (word_of_nat (length x) :: 32 word) - 1 in
      if max_input_chars_per_word < len then Some (Inr [unk_token])
      else
        (case encode_loop x vocabulary unk_token len 0 [] of
           None \<Rightarrow> None
         | Some (Inl err) \<Rightarrow> Some (Inl err)
         | Some (Inr sub_tokens) \<Rightarrow>
             Some (Inr (if sub_tokens = [] then [unk_token] else sub_tokens))))"

declare longest_match.simps [simp del]

section \<open>The trainer's data model (trainer\_interface.cc)\<close>

text \<open>
  Every failing \<^verbatim>\<open>CHECK_..._OR_RETURN\<close> and \<^verbatim>\<open>RETURN_IF_ERROR\<close> of the source returns
  an error status. The constructors name the check that failed:
  \<^item> \<open>ConfigError\<close>: a check of \<^verbatim>\<open>VerifySpec\<close> or \<^verbatim>\<open>InitMetaPieces\<close>;
  \<^item> \<open>PreconditionError\<close>: the object is not in its initial state
    (\<^verbatim>\<open>meta_pieces_\<close>, \<^verbatim>\<open>sentences_\<close> or \<^verbatim>\<open>required_chars_\<close> not empty);
  \<^item> \<open>UnsupportedFormatError\<close>: the input format is not empty, \<^verbatim>\<open>text\<close> or \<^verbatim>\<open>tsv\<close>;
  \<^item> \<open>FileError\<close>: an input file cannot be read;
  \<^item> \<open>CorpusFormatError\<close>: a malformed line of a \<^verbatim>\<open>tsv\<close> input;
  \<^item> \<open>NoSentencesError\<close>: no sentence was loaded (the check before normalization);
  \<^item> \<open>NormalizationInvariantError\<close>: a raw space in a normalized sentence;
  \<^item> \<open>ReservedCharError\<close>: the unknown-character codepoint is a required character;
  \<^item> \<open>VocabularyTooSmallError\<close>: required characters and meta pieces exceed the
    vocabulary size;
  \<^item> \<open>SerializationError\<close>: a check of \<^verbatim>\<open>Serialize\<close>.
\<close>

datatype error =
    ConfigError
  | PreconditionError
  | UnsupportedFormatError
  | FileError
  | CorpusFormatError
  | NoSentencesError
  | NormalizationInvariantError
  | ReservedCharError
  | VocabularyTooSmallError
  | SerializationError

text \<open>The model types of \<^verbatim>\<open>TrainerSpec\<close>; \<^verbatim>\<open>CHAR\<close> is reserved syntax of HOL and is
  written \<open>CHAR'\<close>.\<close>

datatype ModelType = UNIGRAM | BPE | WORD | CHAR'

datatype PieceType = NORMAL | UNKNOWN | CONTROL | USER_DEFINED

text \<open>The fields of \<^verbatim>\<open>TrainerSpec\<close> that the source reads. The integer fields are
  32-bit in the source; no computation on them here can overflow, so they are
  \<^typ>\<open>int\<close>. The two \<^verbatim>\<open>float\<close> fields hold the exact value of the float (a float that
  is not a number fails every range check, as a value out of range does).\<close>

record TrainerSpec =
  model_prefix :: string
  input :: "string list"
  input_format :: string
  vocab_size :: int
  model_type :: ModelType
  use_all_vocab :: bool
  hard_vocab_limit :: bool
  character_coverage :: real
  max_sentencepiece_length :: int
  num_sub_iterations :: int
  num_threads :: int
  self_test_sample_size :: int
  shrinking_factor :: real
  max_sentence_length :: int
  input_sentence_size :: int
  shuffle_input_sentence :: bool
  treat_whitespace_as_suffix :: bool
  split_by_whitespace :: bool
  split_by_number :: bool
  split_by_unicode_script :: bool
  unk_piece :: string
  bos_piece :: string
  eos_piece :: string
  pad_piece :: string
  unk_id :: int
  bos_id :: int
  eos_id :: int
  pad_id :: int
  control_symbols :: "string list"
  user_defined_symbols :: "string list"

record NormalizerSpec =
  name :: string

type_synonym char32 = "32 word"

definition kWSChar :: char32 where
  "kWSChar = 0x2581"

definition kUNKChar :: char32 where
  "kUNKChar = 0x2585"

definition kUNKStr :: string where
  "kUNKStr = [CHR 0xE2, CHR 0x96, CHR 0x85]"

definition kUPPBoundaryChar :: char32 where
  "kUPPBoundaryChar = 0x0009"

definition kUPPBoundaryStr :: string where
  "kUPPBoundaryStr = [CHR 0x09]"

type_synonym MetaPieces = "(int, string \<times> PieceType) fmap"

section \<open>VerifySpec\<close>

text \<open>The checks in the order of the source; the two deprecation warnings only log.\<close>

definition CHECK_RANGE :: "'a::linorder \<Rightarrow> 'a \<Rightarrow> 'a \<Rightarrow> bool" where
  "CHECK_RANGE variable minval maxval = (minval \<le> variable \<and> variable \<le> maxval)"

definition VerifySpec :: "TrainerSpec \<Rightarrow> error + unit" where
  "VerifySpec ts =
     (if model_prefix ts = [] then Inl ConfigError
      else if \<not> 0 < length (input ts) then Inl ConfigError
      else if \<not> 0 < vocab_size ts then Inl ConfigError
      else if (model_type ts = UNIGRAM \<or> model_type ts = BPE) \<and> use_all_vocab ts
        then Inl ConfigError
      else if \<not> CHECK_RANGE (character_coverage ts) 0.98 1.0 then Inl ConfigError
      else if \<not> CHECK_RANGE (max_sentencepiece_length ts) 1 512 then Inl ConfigError
      else if \<not> CHECK_RANGE (num_sub_iterations ts) 1 10 then Inl ConfigError
      else if \<not> CHECK_RANGE (num_threads ts) 1 128 then Inl ConfigError
      else if \<not> CHECK_RANGE (self_test_sample_size ts) 0 1000 then Inl ConfigError
      else if \<not> CHECK_RANGE (shrinking_factor ts) 0.5 0.95 then Inl ConfigError
      else if \<not> CHECK_RANGE (max_sentence_length ts) 10 1073741824 then Inl ConfigError
      else if \<not> (input_sentence_size ts \<le> 0 \<or> 100 < input_sentence_size ts)
        then Inl ConfigError
      else if unk_piece ts = [] then Inl ConfigError
      else if bos_piece ts = [] then Inl ConfigError
      else if eos_piece ts = [] then Inl ConfigError
      else if pad_piece ts = [] then Inl ConfigError
      else Inr ())"

section \<open>InitMetaPieces\<close>

text \<open>The lambda \<^verbatim>\<open>insert_id\<close>, on the captured \<^verbatim>\<open>has_unk\<close> and \<^verbatim>\<open>meta_pieces_\<close>:
  \<open>None\<close> is its result \<^verbatim>\<open>false\<close>, on which the caller's check fails.\<close>

definition insert_id ::
  "TrainerSpec \<Rightarrow> int \<Rightarrow> string \<Rightarrow> bool \<times> MetaPieces \<Rightarrow> (bool \<times> MetaPieces) option" where
  "insert_id ts i w st =
     (case st of (has_unk, meta_pieces) \<Rightarrow>
        if i < 0 then Some (has_unk, meta_pieces)
        else if vocab_size ts \<le> i \<or> fmlookup meta_pieces i \<noteq> None
                \<or> (has_unk \<and> w = unk_piece ts)
          then None
        else Some (has_unk \<or> w = unk_piece ts,
                   fmupd i (w, if w = unk_piece ts then UNKNOWN else CONTROL) meta_pieces))"

text \<open>\<^verbatim>\<open>while (meta_pieces_.find(id) != meta_pieces_.end()) ++id;\<close>\<close>

function next_unused_id :: "MetaPieces \<Rightarrow> int \<Rightarrow> int" where
  "next_unused_id meta_pieces i =
     (if fmlookup meta_pieces i \<noteq> None then next_unused_id meta_pieces (i + 1) else i)"
  by pat_completeness auto
termination
proof (relation "measure (\<lambda>(meta_pieces, i). card {k \<in> fset (fmdom meta_pieces). i \<le> k})")
  show "wf (measure (\<lambda>(meta_pieces, i). card {k \<in> fset (fmdom meta_pieces). i \<le> k}))"
    by simp
next
  fix meta_pieces :: MetaPieces and i :: int
  assume "fmlookup meta_pieces i \<noteq> None"
  then have mem: "i \<in> {k \<in> fset (fmdom meta_pieces). i \<le> k}"
    by (simp add: fmdom.rep_eq dom_def)
  have "{k \<in> fset (fmdom meta_pieces). i + 1 \<le> k} \<subseteq> {k \<in> fset (fmdom meta_pieces). i \<le> k} - {i}"
    by auto
  then have "card {k \<in> fset (fmdom meta_pieces). i + 1 \<le> k}
      \<le> card ({k \<in> fset (fmdom meta_pieces). i \<le> k} - {i})"
    by (intro card_mono) auto
  also have "\<dots> < card {k \<in> fset (fmdom meta_pieces). i \<le> k}"
    using mem by (intro card_Diff1_less) auto
  finally show "((meta_pieces, i + 1), (meta_pieces, i))
      \<in> measure (\<lambda>(meta_pieces, i). card {k \<in> fset (fmdom meta_pieces). i \<le> k})"
    by simp
qed

declare next_unused_id.simps [simp del]

text \<open>The state the lambda \<^verbatim>\<open>insert_meta_symbol\<close> captures: the counter \<^verbatim>\<open>id\<close>, the
  set \<^verbatim>\<open>dup\<close> of the symbols seen so far, and \<^verbatim>\<open>meta_pieces_\<close>.\<close>

record symbol_state =
  next_id :: int
  dup :: "string set"
  pieces_of :: MetaPieces

text \<open>\<^verbatim>\<open>meta_pieces_[k].second = type\<close>: \<^verbatim>\<open>operator[]\<close> creates the entry, with an
  empty text, when the key is absent.\<close>

definition set_type :: "int \<Rightarrow> PieceType \<Rightarrow> MetaPieces \<Rightarrow> MetaPieces" where
  "set_type k ty meta_pieces =
     (case fmlookup meta_pieces k of
        None \<Rightarrow> fmupd k ('''', ty) meta_pieces
      | Some (w, old) \<Rightarrow> fmupd k (w, ty) meta_pieces)"

definition insert_meta_symbol ::
  "TrainerSpec \<Rightarrow> string \<Rightarrow> PieceType \<Rightarrow> symbol_state \<Rightarrow> symbol_state option" where
  "insert_meta_symbol ts w ty st =
     (if w \<in> dup st then None
      else if w = unk_piece ts then None
      else if w = bos_piece ts \<and> 0 \<le> bos_id ts
        then Some (st\<lparr>dup := insert w (dup st),
                       pieces_of := set_type (bos_id ts) ty (pieces_of st)\<rparr>)
      else if w = eos_piece ts \<and> 0 \<le> eos_id ts
        then Some (st\<lparr>dup := insert w (dup st),
                       pieces_of := set_type (eos_id ts) ty (pieces_of st)\<rparr>)
      else if w = pad_piece ts \<and> 0 \<le> pad_id ts
        then Some (st\<lparr>dup := insert w (dup st),
                       pieces_of := set_type (pad_id ts) ty (pieces_of st)\<rparr>)
      else
        (let k = next_unused_id (pieces_of st) (next_id st) in
         Some (st\<lparr>next_id := k, dup := insert w (dup st),
                   pieces_of := fmupd k (w, ty) (pieces_of st)\<rparr>)))"

text \<open>The two \<^verbatim>\<open>for\<close> loops over the control symbols and the user-defined symbols.\<close>

fun insert_meta_symbols ::
  "TrainerSpec \<Rightarrow> PieceType \<Rightarrow> string list \<Rightarrow> symbol_state \<Rightarrow> error + symbol_state" where
  "insert_meta_symbols ts ty [] st = Inr st"
| "insert_meta_symbols ts ty (w # ws) st =
     (case insert_meta_symbol ts w ty st of
        None \<Rightarrow> Inl ConfigError
      | Some st' \<Rightarrow> insert_meta_symbols ts ty ws st')"

text \<open>The first part of \<^verbatim>\<open>InitMetaPieces\<close>: the four reserved symbols, then the check
  that the unknown symbol is defined.\<close>

definition insert_reserved :: "TrainerSpec \<Rightarrow> error + MetaPieces" where
  "insert_reserved ts =
     (case insert_id ts (unk_id ts) (unk_piece ts) (False, fmempty) of
        None \<Rightarrow> Inl ConfigError
      | Some s1 \<Rightarrow>
     (case insert_id ts (bos_id ts) (bos_piece ts) s1 of
        None \<Rightarrow> Inl ConfigError
      | Some s2 \<Rightarrow>
     (case insert_id ts (eos_id ts) (eos_piece ts) s2 of
        None \<Rightarrow> Inl ConfigError
      | Some s3 \<Rightarrow>
     (case insert_id ts (pad_id ts) (pad_piece ts) s3 of
        None \<Rightarrow> Inl ConfigError
      | Some (has_unk, meta_pieces) \<Rightarrow>
          if \<not> has_unk then Inl ConfigError else Inr meta_pieces))))"

text \<open>\<^verbatim>\<open>InitMetaPieces\<close>, called on the \<^verbatim>\<open>meta_pieces_\<close> of the object, which must be
  empty.\<close>

definition InitMetaPieces :: "TrainerSpec \<Rightarrow> MetaPieces \<Rightarrow> error + MetaPieces" where
  "InitMetaPieces ts meta_pieces0 =
     (if meta_pieces0 \<noteq> fmempty then Inl PreconditionError
      else
        (case insert_reserved ts of
           Inl err \<Rightarrow> Inl err
         | Inr meta_pieces \<Rightarrow>
        (case insert_meta_symbols ts CONTROL (control_symbols ts)
                \<lparr>next_id = 0, dup = {}, pieces_of = meta_pieces\<rparr> of
           Inl err \<Rightarrow> Inl err
         | Inr st \<Rightarrow>
        (case insert_meta_symbols ts USER_DEFINED (user_defined_symbols ts) st of
           Inl err \<Rightarrow> Inl err
         | Inr st' \<Rightarrow> Inr (pieces_of st')))))"


section \<open>The trainer object\<close>

text \<open>The members of \<^verbatim>\<open>TrainerInterface\<close>. \<^verbatim>\<open>status_\<close> is \<open>None\<close> when it is OK.
  \<^verbatim>\<open>final_pieces_\<close> is filled by the learning algorithm of a derived trainer.
  The maps \<^verbatim>\<open>chars_count\<close> and \<^verbatim>\<open>required_chars_\<close> are lists of entries with distinct
  keys: the source only reads them through \<^verbatim>\<open>Sorted\<close>, by key, and by size.\<close>

type_synonym Sentence = "string \<times> int"

record Trainer =
  trainer_spec :: TrainerSpec
  normalizer_spec :: NormalizerSpec
  status :: "error option"
  meta_pieces :: MetaPieces
  sentences :: "Sentence list"
  required_chars :: "(char32 \<times> int) list"
  final_pieces :: "(string \<times> real) list"
  self_test_samples :: "string list"

text \<open>The constructor: \<^verbatim>\<open>VerifySpec\<close>, then \<^verbatim>\<open>InitMetaPieces\<close> when the spec is valid.
  When one of them fails, every method returns the stored error before it reads
  \<^verbatim>\<open>meta_pieces_\<close>, which is left empty here.\<close>

definition TrainerInterface :: "TrainerSpec \<Rightarrow> NormalizerSpec \<Rightarrow> Trainer" where
  "TrainerInterface ts ns =
     (let init = (case VerifySpec ts of
                    Inl err \<Rightarrow> Inl err
                  | Inr u \<Rightarrow> InitMetaPieces ts fmempty) in
      \<lparr>trainer_spec = ts, normalizer_spec = ns,
       status = (case init of Inl err \<Rightarrow> Some err | Inr mp \<Rightarrow> None),
       meta_pieces = (case init of Inl err \<Rightarrow> fmempty | Inr mp \<Rightarrow> mp),
       sentences = [], required_chars = [], final_pieces = [], self_test_samples = []\<rparr>)"

section \<open>IsValidSentencePiece\<close>

text \<open>The script of a codepoint comes from the Unicode tables of
  \<^verbatim>\<open>unicode_script.h\<close>, and \<^verbatim>\<open>IsValidCodepoint\<close> from \<^verbatim>\<open>util.h\<close>; both are parameters.
  \<open>kAnyType\<close> is the value \<^verbatim>\<open>static_cast<ScriptType>(-1)\<close>, which is no script.\<close>

datatype ScriptType = kAnyType | U_Han | U_Hiragana | U_Katakana | U_Script nat

definition is_number :: "char32 \<Rightarrow> bool" where
  "is_number c = (0x30 \<le> c \<and> c \<le> 0x39)"

text \<open>The \<^verbatim>\<open>for\<close> loop over the positions of the piece: \<open>n\<close> is the size of the
  piece, \<open>pos\<close> the position of the head of the remaining list.\<close>

fun valid_chars ::
  "(char32 \<Rightarrow> ScriptType) \<Rightarrow> (char32 \<Rightarrow> bool) \<Rightarrow> TrainerSpec \<Rightarrow> nat \<Rightarrow> nat
    \<Rightarrow> ScriptType \<Rightarrow> char32 list \<Rightarrow> bool" where
  "valid_chars GetScript IsValidCodepoint ts n pos prev_script [] = True"
| "valid_chars GetScript IsValidCodepoint ts n pos prev_script (c # rest) =
     (if c = kUNKChar then False
      else if c = 0x0000 then False
      else if c = kUPPBoundaryChar then False
      else if c = 0x0020 then False
      else if \<not> IsValidCodepoint c then False
      else if c = kWSChar then
        (if treat_whitespace_as_suffix ts then
           (if (split_by_whitespace ts \<and> pos < n - 1)
               \<or> (\<not> split_by_whitespace ts \<and> pos < n - 1 \<and> pos = 0)
            then False
            else valid_chars GetScript IsValidCodepoint ts n (pos + 1) prev_script rest)
         else
           (if (split_by_whitespace ts \<and> 0 < pos)
               \<or> (\<not> split_by_whitespace ts \<and> 0 < pos \<and> pos = n - 1)
            then False
            else valid_chars GetScript IsValidCodepoint ts n (pos + 1) prev_script rest))
      else
        (let s0 = GetScript c;
             s1 = (if s0 = U_Hiragana \<or> s0 = U_Katakana \<or> c = 0x30FC then U_Han else s0);
             s = (if \<not> split_by_number ts \<and> is_number c then kAnyType else s1)
         in if split_by_unicode_script ts \<and> s \<noteq> kAnyType \<and> prev_script \<noteq> kAnyType
               \<and> prev_script \<noteq> s
            then False
            else valid_chars GetScript IsValidCodepoint ts n (pos + 1) s rest))"

text \<open>\<^verbatim>\<open>static_cast<size_t>(max_sentencepiece_length())\<close> is the 64-bit unsigned value
  of the integer.\<close>

definition IsValidSentencePiece ::
  "(char32 \<Rightarrow> ScriptType) \<Rightarrow> (char32 \<Rightarrow> bool) \<Rightarrow> TrainerSpec \<Rightarrow> char32 list \<Rightarrow> bool" where
  "IsValidSentencePiece GetScript IsValidCodepoint ts sentencepiece =
     (if sentencepiece = []
         \<or> unat (word_of_int (max_sentencepiece_length ts) :: 64 word) < length sentencepiece
      then False
      else valid_chars GetScript IsValidCodepoint ts (length sentencepiece) 0 kAnyType
             sentencepiece)"

section \<open>Serialize\<close>

record SentencePiece =
  sp_piece :: string
  sp_score :: real
  sp_type :: PieceType

record ModelProto =
  pieces :: "SentencePiece list"
  proto_trainer_spec :: TrainerSpec
  proto_normalizer_spec :: NormalizerSpec

text \<open>The state of the assembly loop: the pieces added to the model so far, the set
  \<^verbatim>\<open>dup\<close> of their texts, and the index \<^verbatim>\<open>fid\<close> of the next learned piece.\<close>

record serialize_state =
  emitted :: "SentencePiece list"
  dup_texts :: "string set"
  fid :: nat

text \<open>The macro \<^verbatim>\<open>CHECK_PIECE\<close>; \<^verbatim>\<open>IsStructurallyValid\<close> (of \<^verbatim>\<open>util.h\<close>) is a
  parameter.\<close>

definition CHECK_PIECE :: "(string \<Rightarrow> bool) \<Rightarrow> string \<Rightarrow> string set \<Rightarrow> error + string set" where
  "CHECK_PIECE IsStructurallyValid p d =
     (if \<not> IsStructurallyValid p then Inl SerializationError
      else if p = [] then Inl SerializationError
      else if p \<in> d then Inl SerializationError
      else Inr (insert p d))"

text \<open>\<^verbatim>\<open>for (int id = 0; id < vocab_size; ++id)\<close>. A piece added without
  \<^verbatim>\<open>set_type\<close> has the default type of the message, \<open>NORMAL\<close>.\<close>

function serialize_pieces ::
  "(string \<Rightarrow> bool) \<Rightarrow> TrainerSpec \<Rightarrow> MetaPieces \<Rightarrow> (string \<times> real) list \<Rightarrow> int
    \<Rightarrow> serialize_state \<Rightarrow> error + serialize_state" where
  "serialize_pieces IsStructurallyValid ts mp fp i st =
     (if i < vocab_size ts then
        (case fmlookup mp i of
           Some (w, ty) \<Rightarrow>
             if int (length (emitted st)) + 1 - 1 \<noteq> i then Inl SerializationError
             else if ty = NORMAL then Inl SerializationError
             else
               (case CHECK_PIECE IsStructurallyValid w (dup_texts st) of
                  Inl err \<Rightarrow> Inl err
                | Inr d \<Rightarrow>
                    serialize_pieces IsStructurallyValid ts mp fp (i + 1)
                      (st\<lparr>emitted := emitted st @ [\<lparr>sp_piece = w, sp_score = 0, sp_type = ty\<rparr>],
                          dup_texts := d\<rparr>))
         | None \<Rightarrow>
             if fid st < length fp then
               (case CHECK_PIECE IsStructurallyValid (fst (fp ! fid st)) (dup_texts st) of
                  Inl err \<Rightarrow> Inl err
                | Inr d \<Rightarrow>
                    serialize_pieces IsStructurallyValid ts mp fp (i + 1)
                      (st\<lparr>emitted := emitted st @
                             [\<lparr>sp_piece = fst (fp ! fid st), sp_score = snd (fp ! fid st),
                               sp_type = NORMAL\<rparr>],
                          dup_texts := d, fid := fid st + 1\<rparr>))
             else serialize_pieces IsStructurallyValid ts mp fp (i + 1) st)
      else Inr st)"
  by pat_completeness auto
termination
  by (relation "measure (\<lambda>(V, ts, mp, fp, i, st). nat (vocab_size ts - i))") auto

declare serialize_pieces.simps [simp del]

text \<open>\<^verbatim>\<open>Serialize\<close>, into a model that is empty when it is called (as in
  \<^verbatim>\<open>SaveModel\<close> and \<^verbatim>\<open>SaveVocab\<close>).\<close>

definition Serialize :: "(string \<Rightarrow> bool) \<Rightarrow> Trainer \<Rightarrow> error + ModelProto" where
  "Serialize IsStructurallyValid tr =
     (case status tr of
        Some err \<Rightarrow> Inl err
      | None \<Rightarrow>
     (case serialize_pieces IsStructurallyValid (trainer_spec tr) (meta_pieces tr)
             (final_pieces tr) 0 \<lparr>emitted = [], dup_texts = {}, fid = 0\<rparr> of
        Inl err \<Rightarrow> Inl err
      | Inr st \<Rightarrow>
          if fid st \<noteq> length (final_pieces tr) then Inl SerializationError
          else if \<not> hard_vocab_limit (trainer_spec tr) \<or> model_type (trainer_spec tr) = CHAR'
          then
            (if \<not> int (length (emitted st)) \<le> vocab_size (trainer_spec tr)
               then Inl SerializationError
             else if \<not> int (card (dup_texts st)) \<le> vocab_size (trainer_spec tr)
               then Inl SerializationError
             else Inr \<lparr>pieces = emitted st,
                       proto_trainer_spec =
                         (trainer_spec tr)\<lparr>vocab_size := int (length (emitted st))\<rparr>,
                       proto_normalizer_spec = normalizer_spec tr\<rparr>)
          else
            (if vocab_size (trainer_spec tr) \<noteq> int (length (emitted st))
               then Inl SerializationError
             else if vocab_size (trainer_spec tr) \<noteq> int (card (dup_texts st))
               then Inl SerializationError
             else Inr \<lparr>pieces = emitted st, proto_trainer_spec = trainer_spec tr,
                       proto_normalizer_spec = normalizer_spec tr\<rparr>)))"

section \<open>LoadSentences\<close>

subsection \<open>What the trainer takes from outside\<close>

text \<open>The file system, the normalizer, the random engine and the string helpers of
  \<^verbatim>\<open>util.h\<close> are not part of the sources; \<^verbatim>\<open>LoadSentences\<close> takes them as parameters:
  \<^item> \<open>ReadLines name\<close>: the lines that \<^verbatim>\<open>ReadLine\<close> returns for the file, \<open>None\<close>
    when the status of \<^verbatim>\<open>NewReadableFile\<close> is an error;
  \<^item> \<open>Split\<close>: \<^verbatim>\<open>string_util::Split(sentence, "\t")\<close>; \<open>atoll\<close>: the C function;
  \<^item> \<open>Normalize\<close>: \<^verbatim>\<open>normalizer.Normalize\<close>;
  \<^item> \<open>GlobalReplace texts s r\<close>: \<^verbatim>\<open>GlobalReplace(s, r)\<close> of the prefix matcher built from
    the set \<open>texts\<close>;
  \<^item> \<open>UTF8ToUnicodeText\<close>, \<open>UnicodeTextToUTF8\<close>, \<open>ValidCodepoint\<close>
    (\<^verbatim>\<open>string_util::IsValidCodepoint\<close>);
  \<^item> \<open>draw k\<close> and \<open>test_draw k\<close>: the positions that the random engines of the
    sentence sampler and of the self-test sampler draw for their \<open>k\<close>-th item.\<close>

record External =
  ReadLines :: "string \<Rightarrow> string list option"
  Split :: "string \<Rightarrow> string list"
  atoll :: "string \<Rightarrow> int"
  Normalize :: "string \<Rightarrow> string"
  GlobalReplace :: "string set \<Rightarrow> string \<Rightarrow> string \<Rightarrow> string"
  UTF8ToUnicodeText :: "string \<Rightarrow> char32 list"
  UnicodeTextToUTF8 :: "char32 list \<Rightarrow> string"
  ValidCodepoint :: "char32 \<Rightarrow> bool"
  draw :: "nat \<Rightarrow> nat"
  test_draw :: "nat \<Rightarrow> nat"

subsection \<open>Sampling and selection\<close>





subsection \<open>Reading the input\<close>






subsection \<open>Normalization\<close>

text \<open>One task of the thread pool: task \<open>n\<close> starts at index \<open>n\<close> and rewrites every
  \<open>num_threads\<close>-th sentence. The tasks write disjoint elements and the result does
  not depend on their order; they are run here one after the other. A task is only
  scheduled when \<open>n < num_threads\<close>, so the stride is positive.\<close>

function normalize_task ::
  "(string \<Rightarrow> string) \<Rightarrow> nat \<Rightarrow> nat \<Rightarrow> Sentence list \<Rightarrow> Sentence list" where
  "normalize_task f stride i ss =
     (if i < length ss \<and> 0 < stride
      then normalize_task f stride (i + stride) (ss[i := (f (fst (ss ! i)), snd (ss ! i))])
      else ss)"
  by pat_completeness auto
termination
  by (relation "measure (\<lambda>(f, stride, i, ss). length ss - i)") auto

declare normalize_task.simps [simp del]

definition normalize_all ::
  "External \<Rightarrow> TrainerSpec \<Rightarrow> MetaPieces \<Rightarrow> Sentence list \<Rightarrow> Sentence list" where
  "normalize_all ext ts mp ss =
     fold (\<lambda>n. normalize_task
                  (\<lambda>s. GlobalReplace ext (fst ` fmran' mp) (Normalize ext s) kUPPBoundaryStr)
                  (nat (num_threads ts)) n)
       [0..<nat (num_threads ts)] ss"

text \<open>The sequential loop after the pool: a sentence with a space is an error; an
  empty sentence is swapped with the last one, which is then dropped, and the loop
  goes on with the next index.\<close>

function remove_empty :: "nat \<Rightarrow> Sentence list \<Rightarrow> error + Sentence list" where
  "remove_empty i ss =
     (if i < length ss then
        (if CHR '' '' \<in> set (fst (ss ! i)) then Inl NormalizationInvariantError
         else if fst (ss ! i) = []
           then remove_empty (i + 1)
                  (take (length ss - 1) (ss[i := ss ! (length ss - 1), length ss - 1 := ss ! i]))
         else remove_empty (i + 1) ss)
      else Inr ss)"
  by pat_completeness auto
termination
  by (relation "measure (\<lambda>(i, ss). length ss - i)") auto

declare remove_empty.simps [simp del]

text \<open>The normalizer stage: the sentences must not be empty; then the pool and the
  sequential loop.\<close>

definition normalize_stage ::
  "External \<Rightarrow> TrainerSpec \<Rightarrow> MetaPieces \<Rightarrow> Sentence list \<Rightarrow> error + Sentence list" where
  "normalize_stage ext ts mp ss =
     (if ss = [] then Inl NoSentencesError
      else remove_empty 0 (normalize_all ext ts mp ss))"

subsection \<open>Character coverage\<close>



















subsection \<open>The whole of LoadSentences\<close>


section \<open>Notions used to state the properties\<close>

text \<open>A configuration for the concrete instances.\<close>

definition example_spec :: TrainerSpec where
  "example_spec =
     \<lparr>model_prefix = ''m'', input = [''corpus.txt''], input_format = '''',
      vocab_size = 8, model_type = UNIGRAM, use_all_vocab = False,
      hard_vocab_limit = True, character_coverage = 0.9995,
      max_sentencepiece_length = 16, num_sub_iterations = 2, num_threads = 16,
      self_test_sample_size = 0, shrinking_factor = 0.75, max_sentence_length = 2048,
      input_sentence_size = 0, shuffle_input_sentence = True,
      treat_whitespace_as_suffix = False, split_by_whitespace = True,
      split_by_number = True, split_by_unicode_script = True,
      unk_piece = ''<unk>'', bos_piece = ''<s>'', eos_piece = ''</s>'',
      pad_piece = ''<pad>'', unk_id = 0, bos_id = 1, eos_id = 2, pad_id = - 1,
      control_symbols = [], user_defined_symbols = []\<rparr>"

text \<open>What the assembly loop keeps true: \<^verbatim>\<open>dup\<close> holds the texts of the pieces added
  so far, which are pairwise distinct, non-empty and structurally valid.\<close>

definition serialize_inv :: "(string \<Rightarrow> bool) \<Rightarrow> serialize_state \<Rightarrow> bool" where
  "serialize_inv IsStructurallyValid st \<longleftrightarrow>
     dup_texts st = set (map sp_piece (emitted st))
     \<and> distinct (map sp_piece (emitted st))
     \<and> (\<forall>p \<in> set (emitted st). sp_piece p \<noteq> [] \<and> IsStructurallyValid (sp_piece p))"

text \<open>A stand-in for \<^verbatim>\<open>IsStructurallyValid\<close> in the concrete instances: it accepts the
  texts made of ASCII characters only, which are valid UTF-8.\<close>

definition ascii_text :: "string \<Rightarrow> bool" where
  "ascii_text s = list_all (\<lambda>c. (of_char c :: nat) < 128) s"

text \<open>What a successful \<^verbatim>\<open>Serialize\<close> has checked of the final state \<open>st\<close> of its
  loop.\<close>

definition serialize_result ::
  "(string \<Rightarrow> bool) \<Rightarrow> Trainer \<Rightarrow> ModelProto \<Rightarrow> serialize_state \<Rightarrow> bool" where
  "serialize_result V tr proto st \<longleftrightarrow>
      serialize_pieces V (trainer_spec tr) (meta_pieces tr) (final_pieces tr) 0
         \<lparr>emitted = [], dup_texts = {}, fid = 0\<rparr> = Inr st
    \<and> pieces proto = emitted st
    \<and> fid st = length (final_pieces tr)
    \<and> (hard_vocab_limit (trainer_spec tr) \<and> model_type (trainer_spec tr) \<noteq> CHAR' \<longrightarrow>
          vocab_size (trainer_spec tr) = int (length (emitted st))
          \<and> vocab_size (trainer_spec tr) = int (card (dup_texts st))
          \<and> proto_trainer_spec proto = trainer_spec tr)
    \<and> (\<not> hard_vocab_limit (trainer_spec tr) \<or> model_type (trainer_spec tr) = CHAR' \<longrightarrow>
          int (length (emitted st)) \<le> vocab_size (trainer_spec tr)
          \<and> int (card (dup_texts st)) \<le> vocab_size (trainer_spec tr)
          \<and> proto_trainer_spec proto
              = (trainer_spec tr)\<lparr>vocab_size := int (length (emitted st))\<rparr>)"

text \<open>A trainer for the concrete instances: the reserved symbols at 0, 1 and 2, one
  user-defined symbol whose text has a space, and one learned piece.\<close>

definition example_trainer :: Trainer where
  "example_trainer =
     (TrainerInterface (example_spec\<lparr>vocab_size := 5, user_defined_symbols := [''a b'']\<rparr>)
        \<lparr>name = ''identity''\<rparr>)
     \<lparr>final_pieces := [(''x'', - 1)]\<rparr>"

definition example_pieces :: "SentencePiece list" where
  "example_pieces =
     [\<lparr>sp_piece = ''<unk>'', sp_score = 0, sp_type = UNKNOWN\<rparr>,
      \<lparr>sp_piece = ''<s>'', sp_score = 0, sp_type = CONTROL\<rparr>,
      \<lparr>sp_piece = ''</s>'', sp_score = 0, sp_type = CONTROL\<rparr>,
      \<lparr>sp_piece = ''a b'', sp_score = 0, sp_type = USER_DEFINED\<rparr>,
      \<lparr>sp_piece = ''x'', sp_score = - 1, sp_type = NORMAL\<rparr>]"

text \<open>The four reserved symbols with their configured identifiers, in the order in
  which \<^verbatim>\<open>InitMetaPieces\<close> inserts them, and those with a non-negative identifier.\<close>

definition reserved_symbols :: "TrainerSpec \<Rightarrow> (int \<times> string) list" where
  "reserved_symbols ts =
     [(unk_id ts, unk_piece ts), (bos_id ts, bos_piece ts),
      (eos_id ts, eos_piece ts), (pad_id ts, pad_piece ts)]"

definition assigned :: "(int \<times> string) list \<Rightarrow> (int \<times> string) list" where
  "assigned rs = filter (\<lambda>(i, w). 0 \<le> i) rs"

definition reserved_entry :: "TrainerSpec \<Rightarrow> string \<Rightarrow> string \<times> PieceType" where
  "reserved_entry ts w = (w, if w = unk_piece ts then UNKNOWN else CONTROL)"

text \<open>\<^verbatim>\<open>insert_id\<close> applied to a list of symbols in turn, stopping at the first
  failure.\<close>

fun insert_ids ::
  "TrainerSpec \<Rightarrow> (int \<times> string) list \<Rightarrow> bool \<times> MetaPieces \<Rightarrow> (bool \<times> MetaPieces) option" where
  "insert_ids ts [] st = Some st"
| "insert_ids ts ((i, w) # rs) st =
     (case insert_id ts i w st of None \<Rightarrow> None | Some st' \<Rightarrow> insert_ids ts rs st')"

text \<open>The identifiers of the entries of category \<open>UNKNOWN\<close>.\<close>

definition unknown_ids :: "MetaPieces \<Rightarrow> int set" where
  "unknown_ids mp = {k. \<exists>w. fmlookup mp k = Some (w, UNKNOWN)}"

text \<open>The states of the two symbol loops of \<^verbatim>\<open>InitMetaPieces\<close>: \<open>symbol_run ts ws st\<close>
  when \<open>st\<close> is the state after the reserved symbols were inserted and the control
  or user-defined symbols \<open>ws\<close> were accepted, in this order.\<close>

inductive symbol_run :: "TrainerSpec \<Rightarrow> string list \<Rightarrow> symbol_state \<Rightarrow> bool" for ts where
  start: "insert_reserved ts = Inr mp \<Longrightarrow>
      symbol_run ts [] \<lparr>next_id = 0, dup = {}, pieces_of = mp\<rparr>"
| step: "symbol_run ts ws st \<Longrightarrow> ty = CONTROL \<or> ty = USER_DEFINED \<Longrightarrow>
      insert_meta_symbol ts w ty st = Some st' \<Longrightarrow> symbol_run ts (ws @ [w]) st'"

code_pred symbol_run .

text \<open>The reserved identifier whose entry a control or user-defined symbol
  reclassifies, if any: the text is that of the begin, end or pad symbol (tried in
  this order) and that symbol has a non-negative identifier.\<close>

definition alias_id :: "TrainerSpec \<Rightarrow> string \<Rightarrow> int option" where
  "alias_id ts w =
     (if w = bos_piece ts \<and> 0 \<le> bos_id ts then Some (bos_id ts)
      else if w = eos_piece ts \<and> 0 \<le> eos_id ts then Some (eos_id ts)
      else if w = pad_piece ts \<and> 0 \<le> pad_id ts then Some (pad_id ts)
      else None)"

text \<open>What the symbol loops keep true of the registry: one entry of category
  \<open>UNKNOWN\<close>, with the unknown text, and every reserved symbol with a non-negative
  identifier registered there with its text.\<close>

definition registry_inv :: "TrainerSpec \<Rightarrow> MetaPieces \<Rightarrow> bool" where
  "registry_inv ts mp \<longleftrightarrow>
     (\<exists>u. unknown_ids mp = {u})
     \<and> (\<forall>k w. fmlookup mp k = Some (w, UNKNOWN) \<longrightarrow> w = unk_piece ts)
     \<and> (\<forall>(i, w) \<in> set (assigned (reserved_symbols ts)). \<exists>ty. fmlookup mp i = Some (w, ty))"

text \<open>The conditions under which the four reserved symbols can be inserted: every
  non-negative identifier is below the vocabulary size, no two of them are equal, and
  exactly one symbol with a non-negative identifier has the unknown text.\<close>

definition reserved_ok :: "TrainerSpec \<Rightarrow> bool" where
  "reserved_ok ts \<longleftrightarrow>
     (\<forall>(i, w) \<in> set (assigned (reserved_symbols ts)). i < vocab_size ts)
     \<and> distinct (map fst (assigned (reserved_symbols ts)))
     \<and> length (filter (\<lambda>(i, w). w = unk_piece ts) (assigned (reserved_symbols ts))) = 1"

text \<open>The registry of the example configuration.\<close>

definition example_meta_pieces :: MetaPieces where
  "example_meta_pieces =
     fmupd 2 (''</s>'', CONTROL)
       (fmupd 1 (''<s>'', CONTROL) (fmupd 0 (''<unk>'', UNKNOWN) fmempty))"

text \<open>What holds of every state of the symbol loops.\<close>

definition symbol_inv :: "TrainerSpec \<Rightarrow> string list \<Rightarrow> symbol_state \<Rightarrow> bool" where
  "symbol_inv ts ws st \<longleftrightarrow>
     registry_inv ts (pieces_of st) \<and> dup st = set ws \<and> 0 \<le> next_id st
     \<and> (\<forall>j. 0 \<le> j \<and> j < next_id st \<longrightarrow> fmlookup (pieces_of st) j \<noteq> None)"



text \<open>Stand-ins for the outside of the trainer in the concrete instances. The texts
  of these instances are ASCII, where decoding UTF-8 gives the bytes; the fields of a
  line are the non-empty runs between tabs; the integer of a field is that of its
  leading decimal digits; the normalizer removes the spaces; no meta piece text
  occurs in a sentence, so \<open>GlobalReplace\<close> leaves it unchanged. The corpus is the
  one file \<^verbatim>\<open>corpus.txt\<close>.\<close>

definition ascii_decode :: "string \<Rightarrow> char32 list" where
  "ascii_decode s = map (\<lambda>c. of_nat (of_char c)) s"

definition ascii_encode :: "char32 list \<Rightarrow> string" where
  "ascii_encode cs = concat (map (\<lambda>c. if c = kUNKChar then kUNKStr else [char_of (unat c)]) cs)"

fun split_fields :: "string \<Rightarrow> string \<Rightarrow> string list" where
  "split_fields cur [] = (if cur = [] then [] else [cur])"
| "split_fields cur (c # cs) =
     (if c = CHR 0x09 then (if cur = [] then split_fields [] cs else cur # split_fields [] cs)
      else split_fields (cur @ [c]) cs)"

fun leading_number :: "int \<Rightarrow> string \<Rightarrow> int" where
  "leading_number n [] = n"
| "leading_number n (c # cs) =
     (if 48 \<le> (of_char c :: nat) \<and> (of_char c :: nat) \<le> 57
      then leading_number (10 * n + (int (of_char c) - 48)) cs
      else n)"

definition example_external :: "string list \<Rightarrow> External" where
  "example_external corpus =
     \<lparr>ReadLines = (\<lambda>filename. if filename = ''corpus.txt'' then Some corpus else None),
      Split = split_fields [],
      atoll = leading_number 0,
      Normalize = filter (\<lambda>c. c \<noteq> CHR '' ''),
      GlobalReplace = (\<lambda>texts s r. s),
      UTF8ToUnicodeText = ascii_decode,
      UnicodeTextToUTF8 = ascii_encode,
      ValidCodepoint = (\<lambda>c. c < 0xD800 \<or> (0xE000 \<le> c \<and> c \<le> 0x10FFFF)),
      draw = (\<lambda>k. 0),
      test_draw = (\<lambda>k. 0)\<rparr>"








section \<open>Properties of the WordPiece encoder\<close>

lemma longest_match_empty:
  "\<exists>en'. longest_match [] vocabulary 0 en = Inr ('''', en')"
proof (induction "[] :: string" vocabulary "0 :: 32 word" en rule: longest_match.induct)
  case (1 vocabulary en)
  note unfold = longest_match.simps [of "[]" vocabulary 0 en]
  show ?case
  proof (cases "0 < en")
    case False
    with unfold show ?thesis by simp
  next
    case True
    show ?thesis
    proof (cases "'''' \<in> set vocabulary")
      case True
      with \<open>0 < en\<close> unfold show ?thesis
        by (simp add: substr_def)
    next
      case False
      have "\<exists>en'. longest_match [] vocabulary 0 (en - 1) = Inr ('''', en')"
        using "1.hyps" [of "''''"] True False by (simp add: substr_def)
      with True False unfold show ?thesis
        by (simp add: substr_def)
    qed
  qed
qed

lemma encode_empty:
  "wordpiece_encode_as_subwords [] vocabulary unk_token m = Some (Inr [unk_token])"
proof -
  obtain en' where lm: "longest_match [] vocabulary 0 (- 1) = Inr ('''', en')"
    using longest_match_empty by blast
  have "(0 :: 32 word) < - 1"
    by (simp add: word_gt_0)
  then have "encode_loop [] vocabulary unk_token (- 1) 0 [] = Some (Inr [unk_token])"
    by (subst encode_loop.simps) (simp add: lm)
  then show ?thesis
    by (simp add: wordpiece_encode_as_subwords_def Let_def)
qed

lemma encode_single:
  "wordpiece_encode_as_subwords [c] vocabulary unk_token m = Some (Inr [unk_token])"
proof -
  have "encode_loop [c] vocabulary unk_token 0 0 [] = Some (Inr [])"
    by (subst encode_loop.simps) simp
  then show ?thesis
    by (simp add: wordpiece_encode_as_subwords_def Let_def)
qed

text \<open>
  Claim C10. For every vocabulary, every unknown token and every
  \<^verbatim>\<open>max_input_chars_per_word\<close>, the encoder applied to a string of length 0 or 1
  returns, and returns exactly one token, the unknown token; this is so even when
  the one-character input is itself in the vocabulary.
\<close>

theorem wordpiece_short_input_is_unk:
  assumes "length x \<le> 1"
  shows "wordpiece_encode_as_subwords x vocabulary unk_token max_input_chars_per_word
    = Some (Inr [unk_token])"
proof (cases x)
  case Nil
  then show ?thesis by (simp add: encode_empty)
next
  case (Cons c cs)
  with assms have "x = [c]" by simp
  then show ?thesis by (simp add: encode_single)
qed

theorem wordpiece_short_input_is_unk_witness:
  "length ''a'' \<le> 1 \<and>
   wordpiece_encode_as_subwords ''a'' [''a'', ''b''] ''[UNK]'' 100 = Some (Inr [''[UNK]''])"
  using wordpiece_short_input_is_unk [of "''a''" "[''a'', ''b'']" "''[UNK]''" 100] by simp

section \<open>Properties of VerifySpec\<close>

lemma check_passes_iff:
  "((if c then Inl err else x) = Inr u) = (\<not> c \<and> x = Inr u)"
  by simp

lemma check_fails_with:
  "x = Inr u \<or> x = Inl err \<Longrightarrow>
   (if c then Inl err else x) = Inr u \<or> (if c then Inl err else x) = Inl err"
  by simp

lemma VerifySpec_result: "VerifySpec ts = Inr () \<or> VerifySpec ts = Inl ConfigError"
  unfolding VerifySpec_def by (intro check_fails_with) simp

lemma VerifySpec_ok_iff:
  "VerifySpec ts = Inr () \<longleftrightarrow>
      model_prefix ts \<noteq> [] \<and> input ts \<noteq> [] \<and> 0 < vocab_size ts
      \<and> ((model_type ts = UNIGRAM \<or> model_type ts = BPE) \<longrightarrow> \<not> use_all_vocab ts)
      \<and> 0.98 \<le> character_coverage ts \<and> character_coverage ts \<le> 1
      \<and> 1 \<le> max_sentencepiece_length ts \<and> max_sentencepiece_length ts \<le> 512
      \<and> 1 \<le> num_sub_iterations ts \<and> num_sub_iterations ts \<le> 10
      \<and> 1 \<le> num_threads ts \<and> num_threads ts \<le> 128
      \<and> 0 \<le> self_test_sample_size ts \<and> self_test_sample_size ts \<le> 1000
      \<and> 0.5 \<le> shrinking_factor ts \<and> shrinking_factor ts \<le> 0.95
      \<and> 10 \<le> max_sentence_length ts \<and> max_sentence_length ts \<le> 2 ^ 30
      \<and> (input_sentence_size ts \<le> 0 \<or> 100 < input_sentence_size ts)
      \<and> unk_piece ts \<noteq> [] \<and> bos_piece ts \<noteq> [] \<and> eos_piece ts \<noteq> []
      \<and> pad_piece ts \<noteq> []"
  unfolding VerifySpec_def CHECK_RANGE_def check_passes_iff by simp blast

theorem VerifySpec_accepts_iff:
  "(VerifySpec ts = Inr () \<longleftrightarrow>
      model_prefix ts \<noteq> [] \<and> input ts \<noteq> [] \<and> 0 < vocab_size ts
      \<and> ((model_type ts = UNIGRAM \<or> model_type ts = BPE) \<longrightarrow> \<not> use_all_vocab ts)
      \<and> 0.98 \<le> character_coverage ts \<and> character_coverage ts \<le> 1
      \<and> 1 \<le> max_sentencepiece_length ts \<and> max_sentencepiece_length ts \<le> 512
      \<and> 1 \<le> num_sub_iterations ts \<and> num_sub_iterations ts \<le> 10
      \<and> 1 \<le> num_threads ts \<and> num_threads ts \<le> 128
      \<and> 0 \<le> self_test_sample_size ts \<and> self_test_sample_size ts \<le> 1000
      \<and> 0.5 \<le> shrinking_factor ts \<and> shrinking_factor ts \<le> 0.95
      \<and> 10 \<le> max_sentence_length ts \<and> max_sentence_length ts \<le> 2 ^ 30
      \<and> (input_sentence_size ts \<le> 0 \<or> 100 < input_sentence_size ts)
      \<and> unk_piece ts \<noteq> [] \<and> bos_piece ts \<noteq> [] \<and> eos_piece ts \<noteq> []
      \<and> pad_piece ts \<noteq> [])
   \<and> (VerifySpec ts = Inr () \<or> VerifySpec ts = Inl ConfigError)"
  using VerifySpec_ok_iff [of ts] VerifySpec_result [of ts] by (rule conjI)

theorem VerifySpec_accepts_iff_witness:
  "VerifySpec example_spec = Inr ()
   \<and> VerifySpec (example_spec\<lparr>num_threads := 0\<rparr>) = Inl ConfigError"
proof -
  have "VerifySpec example_spec = Inr ()"
    by (subst VerifySpec_accepts_iff [THEN conjunct1]) (simp add: example_spec_def)
  moreover have "VerifySpec (example_spec\<lparr>num_threads := 0\<rparr>) \<noteq> Inr ()"
    by (subst VerifySpec_accepts_iff [THEN conjunct1]) (simp add: example_spec_def)
  ultimately show ?thesis
    using VerifySpec_accepts_iff [of "example_spec\<lparr>num_threads := 0\<rparr>", THEN conjunct2]
    by blast
qed

theorem VerifySpec_listed_conditions_counterexample:
  "model_prefix (example_spec\<lparr>num_sub_iterations := 0\<rparr>) \<noteq> []
   \<and> input (example_spec\<lparr>num_sub_iterations := 0\<rparr>) \<noteq> []
   \<and> 0 < vocab_size (example_spec\<lparr>num_sub_iterations := 0\<rparr>)
   \<and> \<not> ((model_type (example_spec\<lparr>num_sub_iterations := 0\<rparr>) = UNIGRAM
          \<or> model_type (example_spec\<lparr>num_sub_iterations := 0\<rparr>) = BPE)
         \<and> use_all_vocab (example_spec\<lparr>num_sub_iterations := 0\<rparr>))
   \<and> 0.98 \<le> character_coverage (example_spec\<lparr>num_sub_iterations := 0\<rparr>)
   \<and> character_coverage (example_spec\<lparr>num_sub_iterations := 0\<rparr>) \<le> 1
   \<and> 1 \<le> max_sentencepiece_length (example_spec\<lparr>num_sub_iterations := 0\<rparr>)
   \<and> max_sentencepiece_length (example_spec\<lparr>num_sub_iterations := 0\<rparr>) \<le> 512
   \<and> 1 \<le> num_threads (example_spec\<lparr>num_sub_iterations := 0\<rparr>)
   \<and> num_threads (example_spec\<lparr>num_sub_iterations := 0\<rparr>) \<le> 128
   \<and> 0 \<le> self_test_sample_size (example_spec\<lparr>num_sub_iterations := 0\<rparr>)
   \<and> self_test_sample_size (example_spec\<lparr>num_sub_iterations := 0\<rparr>) \<le> 1000
   \<and> 10 \<le> max_sentence_length (example_spec\<lparr>num_sub_iterations := 0\<rparr>)
   \<and> max_sentence_length (example_spec\<lparr>num_sub_iterations := 0\<rparr>) \<le> 2 ^ 30
   \<and> unk_piece (example_spec\<lparr>num_sub_iterations := 0\<rparr>) \<noteq> []
   \<and> bos_piece (example_spec\<lparr>num_sub_iterations := 0\<rparr>) \<noteq> []
   \<and> eos_piece (example_spec\<lparr>num_sub_iterations := 0\<rparr>) \<noteq> []
   \<and> pad_piece (example_spec\<lparr>num_sub_iterations := 0\<rparr>) \<noteq> []
   \<and> VerifySpec (example_spec\<lparr>num_sub_iterations := 0\<rparr>) = Inl ConfigError"
  by (simp add: example_spec_def VerifySpec_def CHECK_RANGE_def)

section \<open>Properties of InitMetaPieces\<close>

subsection \<open>The reserved symbols\<close>

lemma insert_id_Some_iff:
  "insert_id ts i w (h, mp) = Some r \<longleftrightarrow>
     (if i < 0 then r = (h, mp)
      else i < vocab_size ts \<and> fmlookup mp i = None \<and> \<not> (h \<and> w = unk_piece ts)
        \<and> r = (h \<or> w = unk_piece ts, fmupd i (reserved_entry ts w) mp))"
  by (cases "fmlookup mp i") (auto simp: insert_id_def reserved_entry_def)

lemma insert_reserved_eq:
  "insert_reserved ts =
     (case insert_ids ts (reserved_symbols ts) (False, fmempty) of
        None \<Rightarrow> Inl ConfigError
      | Some (h, mp) \<Rightarrow> if \<not> h then Inl ConfigError else Inr mp)"
  by (simp add: insert_reserved_def reserved_symbols_def split: option.splits)

lemma assigned_Cons:
  "assigned ((i, w) # rs) = (if 0 \<le> i then (i, w) # assigned rs else assigned rs)"
  by (simp add: assigned_def)

lemma assigned_Nil: "assigned [] = []"
  by (simp add: assigned_def)

lemma free_iff:
  "(\<forall>(j, v) \<in> S. j < (V::int) \<and> fmlookup (fmupd i e mp) j = None)
     \<longleftrightarrow> (\<forall>(j, v) \<in> S. j < V \<and> fmlookup mp j = None) \<and> i \<notin> fst ` S"
proof -
  have "fmlookup (fmupd i e mp) j = None \<longleftrightarrow> i \<noteq> j \<and> fmlookup mp j = None" for j
    by simp
  then show ?thesis
    by (simp only:) force
qed

lemma insert_ids_succeeds_iff:
  "(\<exists>r. insert_ids ts rs (h, mp) = Some r) \<longleftrightarrow>
     (\<forall>(i, w) \<in> set (assigned rs). i < vocab_size ts \<and> fmlookup mp i = None)
     \<and> distinct (map fst (assigned rs))
     \<and> length (filter (\<lambda>(i, w). w = unk_piece ts) (assigned rs)) + (if h then 1 else 0) \<le> 1"
proof (induction rs arbitrary: h mp)
  case Nil
  then show ?case by (simp add: assigned_Nil)
next
  case (Cons a rs)
  obtain i w where a: "a = (i, w)" by (cases a)
  show ?case
  proof (cases "i < 0")
    case True
    then have "insert_id ts i w (h, mp) = Some (h, mp)"
      by (simp add: insert_id_Some_iff)
    then show ?thesis
      using True Cons.IH [of h mp] by (simp add: a assigned_Cons)
  next
    case False
    show ?thesis
    proof (cases "i < vocab_size ts \<and> fmlookup mp i = None \<and> \<not> (h \<and> w = unk_piece ts)")
      case ok: True
      let ?mp1 = "fmupd i (reserved_entry ts w) mp"
      have s1: "insert_id ts i w (h, mp) = Some (h \<or> w = unk_piece ts, ?mp1)"
        using False ok by (simp add: insert_id_Some_iff)
      have free: "(\<forall>(j, v) \<in> set (assigned rs). j < vocab_size ts \<and> fmlookup ?mp1 j = None)
          \<longleftrightarrow> (\<forall>(j, v) \<in> set (assigned rs). j < vocab_size ts \<and> fmlookup mp j = None)
              \<and> i \<notin> fst ` set (assigned rs)"
        by (rule free_iff)
      have cnt: "length (filter (\<lambda>(i, w). w = unk_piece ts) (assigned rs))
            + (if h \<or> w = unk_piece ts then 1 else 0) \<le> (1::nat)
          \<longleftrightarrow> length (filter (\<lambda>(i, w). w = unk_piece ts) ((i, w) # assigned rs))
            + (if h then 1 else 0) \<le> (1::nat)"
        using ok by auto
      have "(\<exists>r. insert_ids ts (a # rs) (h, mp) = Some r)
          \<longleftrightarrow> (\<exists>r. insert_ids ts rs (h \<or> w = unk_piece ts, ?mp1) = Some r)"
        by (simp add: a s1)
      also have "\<dots> \<longleftrightarrow>
          ((\<forall>(j, v) \<in> set (assigned rs). j < vocab_size ts \<and> fmlookup mp j = None)
              \<and> i \<notin> fst ` set (assigned rs))
          \<and> distinct (map fst (assigned rs))
          \<and> length (filter (\<lambda>(i, w). w = unk_piece ts) ((i, w) # assigned rs))
            + (if h then 1 else 0) \<le> (1::nat)"
        unfolding Cons.IH free cnt ..
      also have "\<dots> \<longleftrightarrow>
          (\<forall>(j, v) \<in> set ((i, w) # assigned rs). j < vocab_size ts \<and> fmlookup mp j = None)
          \<and> distinct (map fst ((i, w) # assigned rs))
          \<and> length (filter (\<lambda>(i, w). w = unk_piece ts) ((i, w) # assigned rs))
            + (if h then 1 else 0) \<le> (1::nat)"
        using ok by auto
      finally show ?thesis
        using False by (simp add: a assigned_Cons)
    next
      case bad: False
      then have "insert_id ts i w (h, mp) = None"
        using False by (auto simp: insert_id_def)
      then show ?thesis
        using False bad by (auto simp: a assigned_Cons)
    qed
  qed
qed

lemma insert_ids_result:
  "insert_ids ts rs (h, mp) = Some (h', mp') \<Longrightarrow>
     h' = (h \<or> (\<exists>(i, w) \<in> set (assigned rs). w = unk_piece ts))
     \<and> (\<forall>k. fmlookup mp' k =
          (case map_of (map (\<lambda>(i, w). (i, reserved_entry ts w)) (assigned rs)) k of
             Some e \<Rightarrow> Some e
           | None \<Rightarrow> fmlookup mp k))"
proof (induction rs arbitrary: h mp)
  case Nil
  then show ?case by (simp add: assigned_Nil)
next
  case (Cons a rs)
  obtain i w where a: "a = (i, w)" by (cases a)
  from Cons.prems obtain h1 mp1 where
    s1: "insert_id ts i w (h, mp) = Some (h1, mp1)" and
    s2: "insert_ids ts rs (h1, mp1) = Some (h', mp')"
    by (auto simp: a split: option.splits)
  note IH = Cons.IH [OF s2]
  have dist: "distinct (map fst (assigned (a # rs)))"
    and free: "\<forall>(j, v) \<in> set (assigned (a # rs)). fmlookup mp j = None"
    using insert_ids_succeeds_iff [of ts "a # rs" h mp] Cons.prems by auto
  show ?case
  proof (cases "i < 0")
    case True
    then have "h1 = h" and "mp1 = mp"
      using s1 by (simp_all add: insert_id_Some_iff)
    with IH have "h' = (h \<or> (\<exists>(i, w) \<in> set (assigned rs). w = unk_piece ts))
     \<and> (\<forall>k. fmlookup mp' k =
          (case map_of (map (\<lambda>(i, w). (i, reserved_entry ts w)) (assigned rs)) k of
             Some e \<Rightarrow> Some e
           | None \<Rightarrow> fmlookup mp k))"
      by blast
    then show ?thesis
      using True by (simp add: a assigned_Cons)
  next
    case False
    then have h1: "h1 = (h \<or> w = unk_piece ts)" and mp1: "mp1 = fmupd i (reserved_entry ts w) mp"
      using s1 by (simp_all add: insert_id_Some_iff)
    have notin: "i \<notin> fst ` set (assigned rs)"
      using dist False by (simp add: a assigned_Cons)
    then have "map_of (map (\<lambda>(i, w). (i, reserved_entry ts w)) (assigned rs)) i = None"
      by (force simp: map_of_eq_None_iff)
    then show ?thesis
      using IH False by (auto simp: a assigned_Cons h1 mp1 split: option.splits)
  qed
qed


lemma insert_reserved_Inr_iff:
  "(\<exists>mp. insert_reserved ts = Inr mp) \<longleftrightarrow>
     (\<forall>(i, w) \<in> set (assigned (reserved_symbols ts)). i < vocab_size ts)
     \<and> distinct (map fst (assigned (reserved_symbols ts)))
     \<and> length (filter (\<lambda>(i, w). w = unk_piece ts) (assigned (reserved_symbols ts))) = 1"
  (is "?L \<longleftrightarrow> ?R")
proof
  assume ?L
  then obtain mp where ok: "insert_ids ts (reserved_symbols ts) (False, fmempty) = Some (True, mp)"
    by (auto simp: insert_reserved_eq split: option.splits if_splits)
  from insert_ids_result [OF ok]
  have "\<exists>(i, w) \<in> set (assigned (reserved_symbols ts)). w = unk_piece ts"
    by simp
  then have "filter (\<lambda>(i, w). w = unk_piece ts) (assigned (reserved_symbols ts)) \<noteq> []"
    by (auto simp: filter_empty_conv)
  then have "0 < length (filter (\<lambda>(i, w). w = unk_piece ts) (assigned (reserved_symbols ts)))"
    by simp
  moreover have "(\<forall>(i, w) \<in> set (assigned (reserved_symbols ts)). i < vocab_size ts)
     \<and> distinct (map fst (assigned (reserved_symbols ts)))
     \<and> length (filter (\<lambda>(i, w). w = unk_piece ts) (assigned (reserved_symbols ts))) \<le> 1"
    using insert_ids_succeeds_iff [of ts "reserved_symbols ts" False fmempty] ok by auto
  ultimately show ?R
    by linarith
next
  assume r: ?R
  then have "\<exists>r. insert_ids ts (reserved_symbols ts) (False, fmempty) = Some r"
    by (subst insert_ids_succeeds_iff) auto
  then obtain h mp where ok: "insert_ids ts (reserved_symbols ts) (False, fmempty) = Some (h, mp)"
    by auto
  from r have "filter (\<lambda>(i, w). w = unk_piece ts) (assigned (reserved_symbols ts)) \<noteq> []"
    by auto
  then have "\<exists>(i, w) \<in> set (assigned (reserved_symbols ts)). w = unk_piece ts"
    by (auto simp: filter_empty_conv)
  with insert_ids_result [OF ok] have h by simp
  with ok show ?L
    by (simp add: insert_reserved_eq)
qed

lemma insert_reserved_lookup:
  assumes "insert_reserved ts = Inr mp"
  shows "fmlookup mp k =
    map_of (map (\<lambda>(i, w). (i, reserved_entry ts w)) (assigned (reserved_symbols ts))) k"
proof -
  from assms have "insert_ids ts (reserved_symbols ts) (False, fmempty) = Some (True, mp)"
    by (auto simp: insert_reserved_eq split: option.splits if_splits)
  from insert_ids_result [OF this] show ?thesis
    by (simp split: option.splits)
qed

lemma insert_reserved_error: "insert_reserved ts = Inl err \<Longrightarrow> err = ConfigError"
  by (auto simp: insert_reserved_eq split: option.splits if_splits)

lemma map_of_entries_iff:
  assumes "distinct (map fst rs)"
  shows "map_of (map (\<lambda>(i, w). (i, reserved_entry ts w)) rs) k = Some e
    \<longleftrightarrow> (\<exists>w. (k, w) \<in> set rs \<and> e = reserved_entry ts w)"
proof -
  have "distinct (map fst (map (\<lambda>(i, w). (i, reserved_entry ts w)) rs))"
    using assms by (simp add: comp_def case_prod_unfold)
  then have "map_of (map (\<lambda>(i, w). (i, reserved_entry ts w)) rs) k = Some e
    \<longleftrightarrow> (k, e) \<in> set (map (\<lambda>(i, w). (i, reserved_entry ts w)) rs)"
    by simp
  also have "\<dots> \<longleftrightarrow> (\<exists>w. (k, w) \<in> set rs \<and> e = reserved_entry ts w)"
    by auto
  finally show ?thesis .
qed

lemma filter_singleton_ids:
  assumes "distinct (map fst rs)" and "length (filter (\<lambda>(i, w). w = u) rs) = 1"
  shows "\<exists>k. {i. (i, u) \<in> set rs} = {k}"
proof -
  from assms(2) obtain x where x: "filter (\<lambda>(i, w). w = u) rs = [x]"
    by (cases "filter (\<lambda>(i, w). w = u) rs") auto
  then have "set (filter (\<lambda>(i, w). w = u) rs) = {x}"
    by simp
  then have "{p \<in> set rs. snd p = u} = {x}"
    by (auto simp: case_prod_unfold)
  then have "{i. (i, u) \<in> set rs} = {fst x}"
    by force
  then show ?thesis ..
qed

lemma insert_reserved_inv:
  assumes "insert_reserved ts = Inr mp"
  shows "registry_inv ts mp"
proof -
  let ?rs = "assigned (reserved_symbols ts)"
  from assms have "\<exists>mp. insert_reserved ts = Inr mp" ..
  then have dist: "distinct (map fst ?rs)"
    and one: "length (filter (\<lambda>(i, w). w = unk_piece ts) ?rs) = 1"
    by (simp_all add: insert_reserved_Inr_iff)
  have look: "fmlookup mp k = Some e \<longleftrightarrow> (\<exists>w. (k, w) \<in> set ?rs \<and> e = reserved_entry ts w)"
    for k e
    by (simp add: insert_reserved_lookup [OF assms] map_of_entries_iff [OF dist])
  have "unknown_ids mp = {i. (i, unk_piece ts) \<in> set ?rs}"
    by (auto simp: unknown_ids_def look reserved_entry_def split: if_splits)
  with filter_singleton_ids [OF dist one] have "\<exists>u. unknown_ids mp = {u}"
    by simp
  moreover have "\<forall>k w. fmlookup mp k = Some (w, UNKNOWN) \<longrightarrow> w = unk_piece ts"
    by (auto simp: look reserved_entry_def split: if_splits)
  moreover have "\<forall>(i, w) \<in> set ?rs. \<exists>ty. fmlookup mp i = Some (w, ty)"
    by (auto simp: look reserved_entry_def)
  ultimately show ?thesis
    by (simp add: registry_inv_def)
qed

subsection \<open>The control and user-defined symbols\<close>

lemma next_unused_id_spec:
  "mid \<le> next_unused_id mp mid
   \<and> fmlookup mp (next_unused_id mp mid) = None
   \<and> (\<forall>j. mid \<le> j \<and> j < next_unused_id mp mid \<longrightarrow> fmlookup mp j \<noteq> None)"
proof (induction mp mid rule: next_unused_id.induct)
  case (1 mp i)
  show ?case
  proof (cases "fmlookup mp i = None")
    case True
    then show ?thesis
      by (auto simp: next_unused_id.simps [of mp i])
  next
    case False
    with "1.IH" have IH: "i + 1 \<le> next_unused_id mp (i + 1)
      \<and> fmlookup mp (next_unused_id mp (i + 1)) = None
      \<and> (\<forall>j. i + 1 \<le> j \<and> j < next_unused_id mp (i + 1) \<longrightarrow> fmlookup mp j \<noteq> None)"
      by simp
    have eq: "next_unused_id mp i = next_unused_id mp (i + 1)"
      using False by (simp add: next_unused_id.simps [of mp i])
    have "fmlookup mp j \<noteq> None" if "i \<le> j" "j < next_unused_id mp (i + 1)" for j
    proof (cases "j = i")
      case True
      with False show ?thesis by simp
    next
      case False
      with that IH show ?thesis by simp
    qed
    with IH show ?thesis
      unfolding eq by auto
  qed
qed

lemma alias_id_assigned:
  "alias_id ts w = Some r \<Longrightarrow> (r, w) \<in> set (assigned (reserved_symbols ts))"
  by (auto simp: alias_id_def assigned_def reserved_symbols_def split: if_splits)

lemma insert_meta_symbol_cases:
  "insert_meta_symbol ts w ty st =
     (if w \<in> dup st \<or> w = unk_piece ts then None
      else
        (case alias_id ts w of
           Some r \<Rightarrow> Some (st\<lparr>dup := insert w (dup st),
                               pieces_of := set_type r ty (pieces_of st)\<rparr>)
         | None \<Rightarrow>
             Some (st\<lparr>next_id := next_unused_id (pieces_of st) (next_id st),
                      dup := insert w (dup st),
                      pieces_of := fmupd (next_unused_id (pieces_of st) (next_id st)) (w, ty)
                        (pieces_of st)\<rparr>)))"
proof -
  let ?b = "w = bos_piece ts \<and> 0 \<le> bos_id ts"
  let ?e = "w = eos_piece ts \<and> 0 \<le> eos_id ts"
  let ?p = "w = pad_piece ts \<and> 0 \<le> pad_id ts"
  consider (rej) "w \<in> dup st \<or> w = unk_piece ts"
    | (bos) "\<not> (w \<in> dup st \<or> w = unk_piece ts)" ?b
    | (eos) "\<not> (w \<in> dup st \<or> w = unk_piece ts)" "\<not> ?b" ?e
    | (pad) "\<not> (w \<in> dup st \<or> w = unk_piece ts)" "\<not> ?b" "\<not> ?e" ?p
    | (new) "\<not> (w \<in> dup st \<or> w = unk_piece ts)" "\<not> ?b" "\<not> ?e" "\<not> ?p"
    by blast
  then show ?thesis
  proof cases
    case rej
    then show ?thesis
      by (auto simp: insert_meta_symbol_def)
  next
    case bos
    then show ?thesis
      by (auto simp: insert_meta_symbol_def alias_id_def)
  next
    case eos
    then show ?thesis
      by (auto simp: insert_meta_symbol_def alias_id_def)
  next
    case pad
    then show ?thesis
      by (auto simp: insert_meta_symbol_def alias_id_def)
  next
    case new
    then show ?thesis
      by (auto simp: insert_meta_symbol_def alias_id_def Let_def)
  qed
qed


lemma registry_inv_update:
  assumes inv: "registry_inv ts mp" and ty: "ty \<noteq> UNKNOWN"
    and old: "\<forall>v t. fmlookup mp k = Some (v, t) \<longrightarrow> v = w \<and> t \<noteq> UNKNOWN"
  shows "registry_inv ts (fmupd k (w, ty) mp)"
proof -
  have "unknown_ids (fmupd k (w, ty) mp) = unknown_ids mp"
    using ty old by (auto simp: unknown_ids_def)
  moreover have "\<forall>j v. fmlookup (fmupd k (w, ty) mp) j = Some (v, UNKNOWN) \<longrightarrow> v = unk_piece ts"
    using inv ty by (auto simp: registry_inv_def)
  moreover have "\<forall>(i, v) \<in> set (assigned (reserved_symbols ts)).
      \<exists>t. fmlookup (fmupd k (w, ty) mp) i = Some (v, t)"
  proof (clarify)
    fix i v
    assume "(i, v) \<in> set (assigned (reserved_symbols ts))"
    with inv obtain t where t: "fmlookup mp i = Some (v, t)"
      by (auto simp: registry_inv_def)
    show "\<exists>t. fmlookup (fmupd k (w, ty) mp) i = Some (v, t)"
    proof (cases "i = k")
      case True
      with t old have "v = w" by simp
      with True show ?thesis by simp
    next
      case False
      with t show ?thesis by simp
    qed
  qed
  ultimately show ?thesis
    using inv by (simp add: registry_inv_def)
qed

lemma alias_entry:
  assumes inv: "registry_inv ts mp" and al: "alias_id ts w = Some r" and w: "w \<noteq> unk_piece ts"
  shows "\<exists>old. fmlookup mp r = Some (w, old) \<and> old \<noteq> UNKNOWN"
proof -
  from alias_id_assigned [OF al] inv obtain old where old: "fmlookup mp r = Some (w, old)"
    by (auto simp: registry_inv_def)
  with inv w have "old \<noteq> UNKNOWN"
    by (auto simp: registry_inv_def)
  with old show ?thesis by simp
qed

lemma insert_meta_symbol_inv:
  assumes inv: "symbol_inv ts ws st" and ty: "ty \<noteq> UNKNOWN"
    and step: "insert_meta_symbol ts w ty st = Some st'"
  shows "symbol_inv ts (ws @ [w]) st'"
proof -
  from step have w: "w \<notin> dup st" "w \<noteq> unk_piece ts"
    by (auto simp: insert_meta_symbol_cases split: if_splits)
  from inv have rinv: "registry_inv ts (pieces_of st)" and d: "dup st = set ws"
    and n0: "0 \<le> next_id st"
    and below: "\<forall>j. 0 \<le> j \<and> j < next_id st \<longrightarrow> fmlookup (pieces_of st) j \<noteq> None"
    by (simp_all add: symbol_inv_def)
  show ?thesis
  proof (cases "alias_id ts w")
    case (Some r)
    from alias_entry [OF rinv Some w(2)] obtain old where
      old: "fmlookup (pieces_of st) r = Some (w, old)" "old \<noteq> UNKNOWN"
      by blast
    from step w Some have st': "st' = st\<lparr>dup := insert w (dup st),
        pieces_of := fmupd r (w, ty) (pieces_of st)\<rparr>"
      by (simp add: insert_meta_symbol_cases set_type_def old)
    have "registry_inv ts (fmupd r (w, ty) (pieces_of st))"
      using rinv ty old by (intro registry_inv_update) auto
    then show ?thesis
      using d n0 below by (auto simp: symbol_inv_def st')
  next
    case None
    let ?k = "next_unused_id (pieces_of st) (next_id st)"
    from step w None have st': "st' = st\<lparr>next_id := ?k, dup := insert w (dup st),
        pieces_of := fmupd ?k (w, ty) (pieces_of st)\<rparr>"
      by (simp add: insert_meta_symbol_cases)
    note spec = next_unused_id_spec [of "next_id st" "pieces_of st"]
    have "registry_inv ts (fmupd ?k (w, ty) (pieces_of st))"
      using rinv ty spec by (intro registry_inv_update) auto
    moreover have "fmlookup (pieces_of st) j \<noteq> None" if "0 \<le> j" "j < ?k" for j
      using that below spec by (cases "j < next_id st") auto
    ultimately show ?thesis
      using d n0 spec by (auto simp: symbol_inv_def st')
  qed
qed

lemma symbol_run_inv: "symbol_run ts ws st \<Longrightarrow> symbol_inv ts ws st"
proof (induction rule: symbol_run.induct)
  case (start mp)
  then show ?case
    by (auto simp: symbol_inv_def insert_reserved_inv)
next
  case (step ws st ty w st')
  then show ?case
    by (auto intro: insert_meta_symbol_inv)
qed

lemma insert_meta_symbols_run:
  assumes "symbol_run ts ws st" and "ty = CONTROL \<or> ty = USER_DEFINED"
    and "insert_meta_symbols ts ty xs st = Inr st'"
  shows "symbol_run ts (ws @ xs) st'"
  using assms
proof (induction xs arbitrary: ws st)
  case Nil
  then show ?case by simp
next
  case (Cons x xs)
  from Cons.prems(3) obtain st1 where
    s1: "insert_meta_symbol ts x ty st = Some st1" and
    s2: "insert_meta_symbols ts ty xs st1 = Inr st'"
    by (auto split: option.splits)
  have "symbol_run ts (ws @ [x]) st1"
    using Cons.prems(1,2) s1 by (rule symbol_run.step)
  from Cons.IH [OF this Cons.prems(2) s2] show ?case
    by simp
qed

lemma InitMetaPieces_run:
  assumes "InitMetaPieces ts fmempty = Inr mp"
  shows "\<exists>st. symbol_run ts (control_symbols ts @ user_defined_symbols ts) st
    \<and> pieces_of st = mp"
proof -
  from assms obtain mp0 st1 st2 where
    r: "insert_reserved ts = Inr mp0" and
    c: "insert_meta_symbols ts CONTROL (control_symbols ts)
          \<lparr>next_id = 0, dup = {}, pieces_of = mp0\<rparr> = Inr st1" and
    u: "insert_meta_symbols ts USER_DEFINED (user_defined_symbols ts) st1 = Inr st2" and
    mp: "mp = pieces_of st2"
    by (auto simp: InitMetaPieces_def split: sum.splits)
  have "symbol_run ts [] \<lparr>next_id = 0, dup = {}, pieces_of = mp0\<rparr>"
    using r by (rule symbol_run.start)
  from insert_meta_symbols_run [OF this _ c]
  have "symbol_run ts (control_symbols ts) st1" by simp
  from insert_meta_symbols_run [OF this _ u]
  have "symbol_run ts (control_symbols ts @ user_defined_symbols ts) st2" by simp
  with mp show ?thesis by blast
qed

lemma InitMetaPieces_reserved_error:
  "\<not> reserved_ok ts \<Longrightarrow> InitMetaPieces ts fmempty = Inl ConfigError"
proof -
  assume "\<not> reserved_ok ts"
  then have "\<not> (\<exists>mp. insert_reserved ts = Inr mp)"
    by (simp add: insert_reserved_Inr_iff reserved_ok_def)
  then obtain err where "insert_reserved ts = Inl err"
    by (cases "insert_reserved ts") auto
  with insert_reserved_error [OF this] show ?thesis
    by (simp add: InitMetaPieces_def)
qed

text \<open>
  Claim C5. \<^verbatim>\<open>InitMetaPieces\<close> registers each of the four reserved symbols at its
  configured identifier exactly when that identifier is non-negative: the registry
  after the reserved symbols is the map of the symbols with a non-negative identifier.
  It fails with \<open>ConfigError\<close> when a non-negative identifier is not below the
  vocabulary size, when two non-negative identifiers are equal, and unless exactly one
  registered symbol has the unknown text. Every registry that \<^verbatim>\<open>InitMetaPieces\<close>
  builds has exactly one entry of category \<open>UNKNOWN\<close>.
\<close>

theorem reserved_symbols_registered:
  "(insert_reserved ts = Inr mp0 \<longleftrightarrow>
      reserved_ok ts
      \<and> (\<forall>k. fmlookup mp0 k =
            map_of (map (\<lambda>(i, w). (i, reserved_entry ts w)) (assigned (reserved_symbols ts))) k))
   \<and> (\<not> reserved_ok ts \<longrightarrow> InitMetaPieces ts fmempty = Inl ConfigError)
   \<and> (InitMetaPieces ts fmempty = Inr mp \<longrightarrow>
        reserved_ok ts \<and> (\<exists>!k. \<exists>w. fmlookup mp k = Some (w, UNKNOWN)))"
proof (intro conjI impI)
  show "insert_reserved ts = Inr mp0 \<longleftrightarrow>
      reserved_ok ts
      \<and> (\<forall>k. fmlookup mp0 k =
            map_of (map (\<lambda>(i, w). (i, reserved_entry ts w)) (assigned (reserved_symbols ts))) k)"
    (is "?L \<longleftrightarrow> ?ok \<and> ?look")
  proof
    assume l: ?L
    then have "\<exists>mp. insert_reserved ts = Inr mp" ..
    then have ?ok
      by (simp add: insert_reserved_Inr_iff reserved_ok_def)
    moreover have ?look
      using insert_reserved_lookup [OF l] by simp
    ultimately show "?ok \<and> ?look" ..
  next
    assume r: "?ok \<and> ?look"
    then have "\<exists>mp. insert_reserved ts = Inr mp"
      by (simp add: insert_reserved_Inr_iff reserved_ok_def)
    then obtain mp1 where mp1: "insert_reserved ts = Inr mp1" ..
    have "fmlookup mp1 k = fmlookup mp0 k" for k
      using insert_reserved_lookup [OF mp1] r by simp
    then have "mp1 = mp0"
      by (intro fmap_ext)
    with mp1 show ?L by simp
  qed
next
  assume "\<not> reserved_ok ts"
  then show "InitMetaPieces ts fmempty = Inl ConfigError"
    by (rule InitMetaPieces_reserved_error)
next
  assume ok: "InitMetaPieces ts fmempty = Inr mp"
  then show "reserved_ok ts"
    using InitMetaPieces_reserved_error [of ts] by auto
  from InitMetaPieces_run [OF ok] obtain st where
    "symbol_run ts (control_symbols ts @ user_defined_symbols ts) st" "pieces_of st = mp"
    by blast
  then have "registry_inv ts mp"
    using symbol_run_inv by (auto simp: symbol_inv_def)
  then obtain u where "unknown_ids mp = {u}"
    by (auto simp: registry_inv_def)
  then have "\<And>k. (\<exists>w. fmlookup mp k = Some (w, UNKNOWN)) \<longleftrightarrow> k = u"
    by (auto simp: unknown_ids_def)
  then show "\<exists>!k. \<exists>w. fmlookup mp k = Some (w, UNKNOWN)"
    by auto
qed


subsection \<open>Concrete instances\<close>

lemma example_reserved:
  "insert_reserved example_spec
     = Inr example_meta_pieces"
  by (simp add: insert_reserved_def insert_id_def example_spec_def example_meta_pieces_def)

lemma example_registry:
  "InitMetaPieces example_spec fmempty
     = Inr example_meta_pieces"
  unfolding InitMetaPieces_def example_reserved by (simp add: example_spec_def)

theorem reserved_symbols_registered_witness:
  "InitMetaPieces example_spec fmempty
     = Inr example_meta_pieces
   \<and> reserved_ok example_spec
   \<and> (\<exists>!k. \<exists>w. fmlookup example_meta_pieces k
           = Some (w, UNKNOWN))
   \<and> InitMetaPieces (example_spec\<lparr>bos_id := 0\<rparr>) fmempty = Inl ConfigError"
proof -
  have "\<not> reserved_ok (example_spec\<lparr>bos_id := 0\<rparr>)"
    by (simp add: reserved_ok_def reserved_symbols_def assigned_def example_spec_def)
  then show ?thesis
    using example_registry
      reserved_symbols_registered [of example_spec fmempty example_meta_pieces]
      reserved_symbols_registered [of "example_spec\<lparr>bos_id := 0\<rparr>" fmempty fmempty]
    by blast
qed


section \<open>Properties of Serialize\<close>

lemma CHECK_PIECE_Inr:
  "CHECK_PIECE V p d = Inr d' \<longleftrightarrow> V p \<and> p \<noteq> [] \<and> p \<notin> d \<and> d' = insert p d"
  by (auto simp: CHECK_PIECE_def)

lemma serialize_pieces_inv:
  "serialize_pieces V ts mp fp i st = Inr st' \<Longrightarrow> serialize_inv V st \<Longrightarrow> serialize_inv V st'"
proof (induction V ts mp fp i st rule: serialize_pieces.induct)
  case (1 V ts mp fp i st)
  note unfold = serialize_pieces.simps [of V ts mp fp i st]
  show ?case
  proof (cases "i < vocab_size ts")
    case False
    with "1.prems" unfold show ?thesis by simp
  next
    case lt: True
    show ?thesis
    proof (cases "fmlookup mp i")
      case (Some e)
      obtain w ty where e: "e = (w, ty)" by (cases e)
      from "1.prems"(1) unfold lt Some e obtain d where
        pos: "int (length (emitted st)) + 1 - 1 = i" and ty: "ty \<noteq> NORMAL" and
        chk: "CHECK_PIECE V w (dup_texts st) = Inr d" and
        rec: "serialize_pieces V ts mp fp (i + 1)
                (st\<lparr>emitted := emitted st @ [\<lparr>sp_piece = w, sp_score = 0, sp_type = ty\<rparr>],
                    dup_texts := d\<rparr>) = Inr st'"
        by (auto split: if_splits sum.splits)
      have "serialize_inv V
          (st\<lparr>emitted := emitted st @ [\<lparr>sp_piece = w, sp_score = 0, sp_type = ty\<rparr>],
              dup_texts := d\<rparr>)"
        using "1.prems"(2) chk by (auto simp: serialize_inv_def CHECK_PIECE_Inr)
      with "1.IH" lt Some e pos ty chk rec show ?thesis
        by blast
    next
      case None
      show ?thesis
      proof (cases "fid st < length fp")
        case False
        with "1.prems"(1) unfold lt None have
          "serialize_pieces V ts mp fp (i + 1) st = Inr st'"
          by simp
        with "1.IH" lt None False "1.prems"(2) show ?thesis
          by blast
      next
        case True
        from "1.prems"(1) unfold lt None True obtain d where
          chk: "CHECK_PIECE V (fst (fp ! fid st)) (dup_texts st) = Inr d" and
          rec: "serialize_pieces V ts mp fp (i + 1)
                  (st\<lparr>emitted := emitted st @
                         [\<lparr>sp_piece = fst (fp ! fid st), sp_score = snd (fp ! fid st),
                           sp_type = NORMAL\<rparr>],
                      dup_texts := d, fid := fid st + 1\<rparr>) = Inr st'"
          by (auto split: sum.splits)
        have "serialize_inv V
            (st\<lparr>emitted := emitted st @
                   [\<lparr>sp_piece = fst (fp ! fid st), sp_score = snd (fp ! fid st),
                     sp_type = NORMAL\<rparr>],
                dup_texts := d, fid := fid st + 1\<rparr>)"
          using "1.prems"(2) chk by (auto simp: serialize_inv_def CHECK_PIECE_Inr)
        with "1.IH" lt None True chk rec show ?thesis
          by blast
      qed
    qed
  qed
qed

lemma Serialize_Inr:
  assumes "Serialize V tr = Inr proto"
  shows "\<exists>st. serialize_result V tr proto st"
  using assms unfolding Serialize_def serialize_result_def
  by (auto split: option.splits sum.splits if_splits)

lemma Serialize_inv:
  assumes "Serialize V tr = Inr proto"
  shows "distinct (map sp_piece (pieces proto))
    \<and> (\<forall>p \<in> set (pieces proto). sp_piece p \<noteq> [] \<and> V (sp_piece p))"
proof -
  from Serialize_Inr [OF assms] obtain st where st: "serialize_result V tr proto st" ..
  have "serialize_inv V \<lparr>emitted = [], dup_texts = {}, fid = 0\<rparr>"
    by (simp add: serialize_inv_def)
  with st have "serialize_inv V st"
    unfolding serialize_result_def by (blast intro: serialize_pieces_inv)
  with st show ?thesis
    by (simp add: serialize_inv_def serialize_result_def)
qed

text \<open>
  Claim C1. For every successful run of \<^verbatim>\<open>Serialize\<close>: when the vocabulary limit is
  hard and the model type is not the character model, the number of pieces and the
  number of distinct piece texts both equal the configured vocabulary size; when the
  limit is soft or the model type is the character model, the number of pieces is at
  most the configured vocabulary size, and the vocabulary size recorded in the
  emitted model is the number of pieces.
\<close>

theorem Serialize_size_reconciled:
  assumes "Serialize IsStructurallyValid tr = Inr proto"
  shows "(hard_vocab_limit (trainer_spec tr) \<and> model_type (trainer_spec tr) \<noteq> CHAR' \<longrightarrow>
            int (length (pieces proto)) = vocab_size (trainer_spec tr)
            \<and> int (card (set (map sp_piece (pieces proto)))) = vocab_size (trainer_spec tr))
       \<and> (\<not> hard_vocab_limit (trainer_spec tr) \<or> model_type (trainer_spec tr) = CHAR' \<longrightarrow>
            int (length (pieces proto)) \<le> vocab_size (trainer_spec tr)
            \<and> vocab_size (proto_trainer_spec proto) = int (length (pieces proto)))"
proof -
  from Serialize_Inr [OF assms] obtain st where
    st: "serialize_result IsStructurallyValid tr proto st" ..
  have "distinct (map sp_piece (pieces proto))"
    using Serialize_inv [OF assms] by simp
  then have "card (set (map sp_piece (pieces proto))) = length (pieces proto)"
    using distinct_card [of "map sp_piece (pieces proto)"] by simp
  then show ?thesis
    using st unfolding serialize_result_def by auto
qed


lemma example_trainer_eq:
  "example_trainer =
     \<lparr>trainer_spec = example_spec\<lparr>vocab_size := 5, user_defined_symbols := [''a b'']\<rparr>,
      normalizer_spec = \<lparr>name = ''identity''\<rparr>, status = None,
      meta_pieces =
        fmupd 3 (''a b'', USER_DEFINED)
          (fmupd 2 (''</s>'', CONTROL)
            (fmupd 1 (''<s>'', CONTROL) (fmupd 0 (''<unk>'', UNKNOWN) fmempty))),
      sentences = [], required_chars = [], final_pieces = [(''x'', - 1)],
      self_test_samples = []\<rparr>"
proof -
  have v: "VerifySpec (example_spec\<lparr>vocab_size := 5, user_defined_symbols := [''a b'']\<rparr>) = Inr ()"
    by (simp add: VerifySpec_def CHECK_RANGE_def example_spec_def)
  have r: "insert_reserved (example_spec\<lparr>vocab_size := 5, user_defined_symbols := [''a b'']\<rparr>)
      = Inr (fmupd 2 (''</s>'', CONTROL)
            (fmupd 1 (''<s>'', CONTROL) (fmupd 0 (''<unk>'', UNKNOWN) fmempty)))"
    by (simp add: insert_reserved_def insert_id_def example_spec_def)
  have n: "next_unused_id (fmupd 2 (''</s>'', CONTROL)
            (fmupd 1 (''<s>'', CONTROL) (fmupd 0 (''<unk>'', UNKNOWN) fmempty))) 0 = 3"
    by (simp add: next_unused_id.simps)
  have i: "InitMetaPieces (example_spec\<lparr>vocab_size := 5, user_defined_symbols := [''a b'']\<rparr>)
        fmempty
      = Inr (fmupd 3 (''a b'', USER_DEFINED)
          (fmupd 2 (''</s>'', CONTROL)
            (fmupd 1 (''<s>'', CONTROL) (fmupd 0 (''<unk>'', UNKNOWN) fmempty))))"
    unfolding InitMetaPieces_def r
    by (simp add: insert_meta_symbol_def n example_spec_def Let_def)
  show ?thesis
    by (simp add: example_trainer_def TrainerInterface_def v i)
qed

lemma example_trainer_serialized:
  "Serialize ascii_text example_trainer =
     Inr \<lparr>pieces = example_pieces,
          proto_trainer_spec = example_spec\<lparr>vocab_size := 5, user_defined_symbols := [''a b'']\<rparr>,
          proto_normalizer_spec = \<lparr>name = ''identity''\<rparr>\<rparr>"
  unfolding example_trainer_eq
  by (simp add: Serialize_def serialize_pieces.simps CHECK_PIECE_def ascii_text_def
      example_pieces_def example_spec_def)

theorem Serialize_size_reconciled_witness:
  "Serialize ascii_text example_trainer =
     Inr \<lparr>pieces = example_pieces,
          proto_trainer_spec = example_spec\<lparr>vocab_size := 5, user_defined_symbols := [''a b'']\<rparr>,
          proto_normalizer_spec = \<lparr>name = ''identity''\<rparr>\<rparr>
   \<and> int (length example_pieces) = 5
   \<and> int (card (set (map sp_piece example_pieces))) = 5"
proof -
  have "hard_vocab_limit (trainer_spec example_trainer)
      \<and> model_type (trainer_spec example_trainer) \<noteq> CHAR'"
    and "vocab_size (trainer_spec example_trainer) = 5"
    by (simp_all add: example_trainer_eq example_spec_def)
  with Serialize_size_reconciled [OF example_trainer_serialized] example_trainer_serialized
  show ?thesis
    by simp
qed

lemma valid_chars_excludes:
  "valid_chars GetScript IsValidCodepoint ts n pos prev_script cs \<Longrightarrow>
     kUNKChar \<notin> set cs \<and> 0x20 \<notin> set cs"
  by (induction cs arbitrary: pos prev_script) (auto simp: Let_def split: if_splits)

text \<open>
  Claim C6, as amended. In every model that \<^verbatim>\<open>Serialize\<close> emits, every piece text is
  non-empty and structurally valid, and no two pieces have the same text; this holds
  for meta pieces and learned pieces alike. \<^verbatim>\<open>Serialize\<close> does not look for a raw space
  or for the unknown-character codepoint: those are excluded by
  \<^verbatim>\<open>IsValidSentencePiece\<close>, for the pieces that it accepts.
\<close>

theorem emitted_pieces_checked:
  assumes "Serialize IsStructurallyValid tr = Inr proto"
  shows "(\<forall>p \<in> set (pieces proto). sp_piece p \<noteq> [] \<and> IsStructurallyValid (sp_piece p))
       \<and> distinct (map sp_piece (pieces proto))
       \<and> (IsValidSentencePiece GetScript IsValidCodepoint ts sentencepiece \<longrightarrow>
            sentencepiece \<noteq> [] \<and> kUNKChar \<notin> set sentencepiece
            \<and> 0x20 \<notin> set sentencepiece)"
proof -
  have "sentencepiece \<noteq> [] \<and> kUNKChar \<notin> set sentencepiece \<and> 0x20 \<notin> set sentencepiece"
    if "IsValidSentencePiece GetScript IsValidCodepoint ts sentencepiece"
    using that valid_chars_excludes [of GetScript IsValidCodepoint ts
        "length sentencepiece" 0 kAnyType sentencepiece]
    by (auto simp: IsValidSentencePiece_def split: if_splits)
  with Serialize_inv [OF assms] show ?thesis
    by blast
qed

theorem emitted_pieces_checked_witness:
  "Serialize ascii_text example_trainer =
     Inr \<lparr>pieces = example_pieces,
          proto_trainer_spec = example_spec\<lparr>vocab_size := 5, user_defined_symbols := [''a b'']\<rparr>,
          proto_normalizer_spec = \<lparr>name = ''identity''\<rparr>\<rparr>
   \<and> list_all (\<lambda>p. sp_piece p \<noteq> [] \<and> ascii_text (sp_piece p)) example_pieces
   \<and> distinct (map sp_piece example_pieces)
   \<and> IsValidSentencePiece (\<lambda>c. U_Script 0) (\<lambda>c. True) example_spec [0x61, 0x62]
   \<and> kUNKChar \<notin> set [0x61, 0x62 :: char32]"
proof -
  have "IsValidSentencePiece (\<lambda>c. U_Script 0) (\<lambda>c. True) example_spec [0x61, 0x62]"
    by (simp add: IsValidSentencePiece_def example_spec_def kUNKChar_def kWSChar_def
        kUPPBoundaryChar_def is_number_def)
  with emitted_pieces_checked [OF example_trainer_serialized,
      of "\<lambda>c. U_Script 0" "\<lambda>c. True" example_spec "[0x61, 0x62]"]
    example_trainer_serialized
  show ?thesis
    by (simp add: list_all_iff)
qed

theorem emitted_piece_with_space_counterexample:
  "Serialize ascii_text example_trainer =
     Inr \<lparr>pieces = example_pieces,
          proto_trainer_spec = example_spec\<lparr>vocab_size := 5, user_defined_symbols := [''a b'']\<rparr>,
          proto_normalizer_spec = \<lparr>name = ''identity''\<rparr>\<rparr>
   \<and> sp_piece (example_pieces ! 3) = ''a b''
   \<and> CHR '' '' \<in> set (sp_piece (example_pieces ! 3))"
  using example_trainer_serialized by (simp add: example_pieces_def)

section \<open>Properties of LoadSentences\<close>

subsection \<open>Reading the input\<close>





subsection \<open>A corpus of lines that are all too long\<close>










subsection \<open>Concrete instances of loading\<close>








subsection \<open>The normalizer stage\<close>

lemma normalize_task_past_end:
  "length ss \<le> i \<Longrightarrow> normalize_task f stride i ss = ss"
  by (simp add: normalize_task.simps)

lemma example_normalized:
  "normalize_all (example_external []) example_spec example_meta_pieces
     [('' '', 1), ('' '', 1)] = [([], 1), ([], 1)]"
proof -
  have "[0..<16] = [0, 1, 2, 3, 4, 5, 6, 7, 8, 9, 10, 11, 12, 13, 14, 15 :: nat]"
    by code_simp
  then show ?thesis
    by (simp add: normalize_all_def example_external_def example_spec_def
        normalize_task.simps)
qed

text \<open>
  Claim C2 fails on the code. Two lines that each hold one space are loaded as
  sentences; the normalizer makes both empty. The loop after the pool swaps the
  first with the last, drops it, and goes on with index 1 without looking at the
  sentence it moved to index 0: the stage succeeds and an empty sentence remains.
  In the same way a sentence with a raw space that is moved to an index already
  passed is kept without an error.
\<close>

theorem normalizer_stage_keeps_empty_sentence:
  "normalize_stage (example_external []) example_spec example_meta_pieces
     [('' '', 1), ('' '', 1)] = Inr [('''', 1)]
   \<and> remove_empty 0 [('''', 1), (''a b'', 1)] = Inr [(''a b'', 1)]"
proof -
  have "remove_empty 0 [('''', 1), ('''', 1)] = Inr [('''', 1)]"
    by (simp add: remove_empty.simps)
  moreover have "remove_empty 0 [('''', 1), (''a b'', 1)] = Inr [(''a b'', 1)]"
    by (simp add: remove_empty.simps)
  ultimately show ?thesis
    by (simp add: normalize_stage_def example_normalized)
qed

subsection \<open>Counting the characters\<close>









subsection \<open>Sorting the counts\<close>








subsection \<open>Selecting the required characters\<close>





subsection \<open>A corpus on which rounding decides\<close>





















end
